theory Spec2Isabelle
  imports Complex_Main
begin

section \<open>Trace Downstream: the D8 flow-path tracer of \<^verbatim>\<open>Scripts/trace_downstream.py\<close>\<close>

text \<open>
  The script follows a D8 flow-direction raster from each seed point until it reaches a
  sink or leaves the raster, and writes the visited cell centres as a polyline.  The
  model below covers the traversal: \<^verbatim>\<open>move_to_next_pixel\<close>, \<^verbatim>\<open>get_coord_x\<close>,
  \<^verbatim>\<open>get_coord_y\<close> and the body of the cursor loop of \<^verbatim>\<open>trace_downstream_main\<close>.

  Conventions of the embedding:
  \<^item> Python's unbounded integers are \<open>int\<close>; Python floats are idealised as \<open>real\<close>
    (no rounding, no NaN or infinity);
  \<^item> an exception is a value \<open>Inl e\<close> of the result type \<open>py_error + 'a\<close>;
  \<^item> a two-dimensional numpy array is a list of rows, read with numpy's index rule
    (a negative index counts from the end, anything else out of range raises);
  \<^item> the \<^verbatim>\<open>while not done\<close> loop is a partial function in the option monad, so a
    trace that never ends has the value \<open>None\<close>.
\<close>

subsection \<open>Exceptions and arrays\<close>

datatype py_error = IndexError | ZeroDivisionError

type_synonym 'a ndarray = "'a list list"

text \<open>\<^verbatim>\<open>a[i]\<close> on one axis of length \<open>n\<close>: the position read, or \<open>IndexError\<close>.\<close>

definition axis_index :: "nat \<Rightarrow> int \<Rightarrow> py_error + nat" where
  "axis_index n i =
     (let j = (if i < 0 then i + int n else i)
      in if 0 \<le> j \<and> j < int n then Inr (nat j) else Inl IndexError)"

text \<open>
  \<^verbatim>\<open>a[row, col]\<close>.  A numpy array is rectangular, so every row has the length of the
  second axis; the model checks the column against the row that is read.
\<close>

definition getitem :: "'a ndarray \<Rightarrow> int \<Rightarrow> int \<Rightarrow> py_error + 'a" where
  "getitem a row col =
     (case axis_index (length a) row of
        Inl e \<Rightarrow> Inl e
      | Inr i \<Rightarrow>
          (case axis_index (length (a ! i)) col of
             Inl e \<Rightarrow> Inl e
           | Inr j \<Rightarrow> Inr (a ! i ! j)))"

text \<open>The array has \<open>nr\<close> rows of \<open>nc\<close> entries each (\<^verbatim>\<open>numpy.shape(a) == (nr, nc)\<close>).\<close>

definition has_shape :: "'a ndarray \<Rightarrow> int \<Rightarrow> int \<Rightarrow> bool" where
  "has_shape a nr nc = (int (length a) = nr \<and> list_all (\<lambda>r. int (length r) = nc) a)"

subsection \<open>Points and raster properties\<close>

text \<open>\<^verbatim>\<open>arcpy.Point\<close> with its \<^verbatim>\<open>X\<close>, \<^verbatim>\<open>Y\<close> and \<^verbatim>\<open>Z\<close> attributes.\<close>

record point =
  X :: real
  Y :: real
  Z :: real

text \<open>
  The attributes of \<^verbatim>\<open>arcpy.Raster\<close> that \<^verbatim>\<open>trace_downstream_main\<close> reads:
  \<^verbatim>\<open>meanCellWidth\<close>, \<^verbatim>\<open>meanCellHeight\<close>, \<^verbatim>\<open>height\<close> (number of rows),
  \<^verbatim>\<open>width\<close> (number of columns) and \<^verbatim>\<open>extent.upperLeft\<close>.
\<close>

record raster =
  meanCellWidth :: real
  meanCellHeight :: real
  height :: int
  width :: int
  upperLeft :: point

subsection \<open>\<^verbatim>\<open>move_to_next_pixel\<close>\<close>

definition move_to_next_pixel :: "int ndarray \<Rightarrow> int \<Rightarrow> int \<Rightarrow> py_error + (int \<times> int)" where
  "move_to_next_pixel fdr row col =
     (case getitem fdr row col of
        Inl e \<Rightarrow> Inl e
      | Inr v \<Rightarrow>
          Inr (if v = 1 then (row, col + 1)
               else if v = 2 then (row + 1, col + 1)
               else if v = 4 then (row + 1, col)
               else if v = 8 then (row + 1, col - 1)
               else if v = 16 then (row, col - 1)
               else if v = 32 then (row - 1, col - 1)
               else if v = 64 then (row - 1, col)
               else if v = 128 then (row - 1, col + 1)
               else (row, col)))"

subsection \<open>\<^verbatim>\<open>get_coord_x\<close> and \<^verbatim>\<open>get_coord_y\<close>\<close>

definition get_coord_x :: "int \<Rightarrow> real \<Rightarrow> point \<Rightarrow> real" where
  "get_coord_x col cell_width upper_left =
     X upper_left + (of_int (col - 1) * cell_width) + (cell_width / 2)"

definition get_coord_y :: "int \<Rightarrow> real \<Rightarrow> point \<Rightarrow> real" where
  "get_coord_y row cell_height upper_left =
     Y upper_left - (of_int (row - 1) * cell_height) - (cell_height / 2)"

subsection \<open>The body of the cursor loop of \<^verbatim>\<open>trace_downstream_main\<close>\<close>

text \<open>Python's \<^verbatim>\<open>int(x)\<close> on a float: truncation toward zero.\<close>

definition py_int :: "real \<Rightarrow> int" where
  "py_int x = (if 0 \<le> x then \<lfloor>x\<rfloor> else - \<lfloor>- x\<rfloor>)"

text \<open>Float division: \<^verbatim>\<open>a / b\<close> raises \<open>ZeroDivisionError\<close> when \<open>b\<close> is zero.\<close>

definition float_div :: "real \<Rightarrow> real \<Rightarrow> py_error + real" where
  "float_div a b = (if b = 0 then Inl ZeroDivisionError else Inr (a / b))"

text \<open>
  Lines 180-181, the raster indices \<open>(row, col)\<close> of a seed \<^verbatim>\<open>pnt\<close> (an \<open>(x, y)\<close> pair):
  \<^verbatim>\<open>col = abs(int((upper_left.X - pnt[0]) / cell_width))\<close>, then
  \<^verbatim>\<open>row = abs(int((upper_left.Y - pnt[1]) / cell_height))\<close>.
\<close>

definition raster_indices :: "raster \<Rightarrow> real \<times> real \<Rightarrow> py_error + (int \<times> int)" where
  "raster_indices fdr_raster pnt =
     (let cell_width = meanCellWidth fdr_raster;
          cell_height = meanCellHeight fdr_raster;
          upper_left = upperLeft fdr_raster
      in case float_div (X upper_left - fst pnt) cell_width of
           Inl e \<Rightarrow> Inl e
         | Inr qx \<Rightarrow>
             (case float_div (Y upper_left - snd pnt) cell_height of
                Inl e \<Rightarrow> Inl e
              | Inr qy \<Rightarrow> Inr (\<bar>py_int qy\<bar>, \<bar>py_int qx\<bar>)))"

text \<open>
  Lines 186-190 and again 203-207, the Z value at \<open>(row, col)\<close>:
  \<^verbatim>\<open>numpy.asscalar(fill[row, col])\<close> when a surface raster was given, else \<open>0\<close>.
  \<open>None\<close> stands for \<^verbatim>\<open>surface_raster == None\<close>.
\<close>

definition surface_z :: "real ndarray option \<Rightarrow> int \<Rightarrow> int \<Rightarrow> py_error + real" where
  "surface_z fill row col =
     (case fill of
        Some a \<Rightarrow> getitem a row col
      | None \<Rightarrow> Inr 0)"

text \<open>The variables the \<^verbatim>\<open>while\<close> loop carries from one iteration to the next.\<close>

record loop_state =
  st_row :: int
  st_col :: int
  st_array :: "point list"

text \<open>
  One iteration, lines 198-224: step, sample Z, compute the map coordinates, append the
  point, and only then run the three tests that set \<^verbatim>\<open>done\<close> (\<open>done1\<close>, \<open>done2\<close>,
  \<open>done3\<close> are its values after each test; it is \<^verbatim>\<open>False\<close> when the iteration starts).
  \<^verbatim>\<open>cell_width\<close>, \<^verbatim>\<open>cell_height\<close>, \<^verbatim>\<open>max_row\<close>, \<^verbatim>\<open>max_col\<close> and \<^verbatim>\<open>upper_left\<close> are
  the locals set in lines 144-148.  The result is the new state and \<^verbatim>\<open>done\<close>.
\<close>

definition trace_step ::
  "raster \<Rightarrow> int ndarray \<Rightarrow> real ndarray option \<Rightarrow> loop_state \<Rightarrow> py_error + (loop_state \<times> bool)" where
  "trace_step fdr_raster fdr fill s =
     (let cell_width = meanCellWidth fdr_raster;
          cell_height = meanCellHeight fdr_raster;
          max_row = height fdr_raster;
          max_col = width fdr_raster;
          upper_left = upperLeft fdr_raster;
          last_r = st_row s;
          last_c = st_col s
      in case move_to_next_pixel fdr (st_row s) (st_col s) of
           Inl e \<Rightarrow> Inl e
         | Inr (row, col) \<Rightarrow>
             (case surface_z fill row col of
                Inl e \<Rightarrow> Inl e
              | Inr point_z \<Rightarrow>
                  (let point_x = get_coord_x col cell_width upper_left;
                       point_y = get_coord_y row cell_height upper_left;
                       array = st_array s @ [\<lparr>X = point_x, Y = point_y, Z = point_z\<rparr>];
                       done1 = (if last_r = row \<and> last_c = col then True else False);
                       done2 = (if row < 0 \<or> row > max_row then True else done1);
                       done3 = (if col < 0 \<or> col > max_col then True else done2)
                   in Inr (\<lparr>st_row = row, st_col = col, st_array = array\<rparr>, done3))))"

text \<open>
  The loop, lines 196-224.  \<^verbatim>\<open>done\<close> starts as \<^verbatim>\<open>False\<close>, so the body runs before the
  first test.  The value is \<open>None\<close> when the loop never ends, \<open>Some (Inl e)\<close> when an
  iteration raises, and \<open>Some (Inr array)\<close> when \<^verbatim>\<open>done\<close> becomes true.
\<close>

partial_function (option) trace_loop ::
  "raster \<Rightarrow> int ndarray \<Rightarrow> real ndarray option \<Rightarrow> loop_state \<Rightarrow> (py_error + point list) option" where
  "trace_loop fdr_raster fdr fill s =
     (case trace_step fdr_raster fdr fill s of
        Inl e \<Rightarrow> Some (Inl e)
      | Inr (s', done) \<Rightarrow>
          (if done then Some (Inr (st_array s')) else trace_loop fdr_raster fdr fill s'))"

text \<open>
  Lines 176-228, the work for one row of the search cursor: indices of the seed, its Z,
  the initial point (the seed's own coordinates), the loop.
\<close>

definition trace_seed ::
  "raster \<Rightarrow> int ndarray \<Rightarrow> real ndarray option \<Rightarrow> real \<times> real \<Rightarrow> (py_error + point list) option" where
  "trace_seed fdr_raster fdr fill pnt =
     (case raster_indices fdr_raster pnt of
        Inl e \<Rightarrow> Some (Inl e)
      | Inr (row, col) \<Rightarrow>
          (case surface_z fill row col of
             Inl e \<Rightarrow> Some (Inl e)
           | Inr point_z \<Rightarrow>
               trace_loop fdr_raster fdr fill
                 \<lparr>st_row = row, st_col = col,
                  st_array = [\<lparr>X = fst pnt, Y = snd pnt, Z = point_z\<rparr>]\<rparr>))"



subsection \<open>The specification's vocabulary\<close>

text \<open>
  The flow step table of the specification (section 4.2): flow code, then
  \<open>(\<Delta>row, \<Delta>col)\<close>.  Any code that is not in the table means no movement.
\<close>

definition spec_step_table :: "(int \<times> (int \<times> int)) list" where
  "spec_step_table =
     [(1, (0, 1)), (2, (1, 1)), (4, (1, 0)), (8, (1, - 1)),
      (16, (0, - 1)), (32, (- 1, - 1)), (64, (- 1, 0)), (128, (- 1, 1))]"

definition spec_step :: "int \<times> int \<Rightarrow> int \<Rightarrow> int \<times> int" where
  "spec_step cell code =
     (case map_of spec_step_table code of
        Some (drow, dcol) \<Rightarrow> (fst cell + drow, snd cell + dcol)
      | None \<Rightarrow> cell)"

text \<open>
  The specification's \<open>pointToCell\<close> (section 4.1), as \<open>(row, col)\<close>: truncation of the
  absolute value, where the script takes the absolute value of the truncation.
\<close>

definition spec_pointToCell :: "raster \<Rightarrow> real \<times> real \<Rightarrow> int \<times> int" where
  "spec_pointToCell grid p =
     (py_int \<bar>(Y (upperLeft grid) - snd p) / meanCellHeight grid\<bar>,
      py_int \<bar>(X (upperLeft grid) - fst p) / meanCellWidth grid\<bar>)"

text \<open>The valid index range of a cell: \<open>0 \<le> row < rows\<close> and \<open>0 \<le> col < cols\<close>.\<close>

definition in_grid :: "raster \<Rightarrow> int \<Rightarrow> int \<Rightarrow> bool" where
  "in_grid fdr_raster row col =
     (0 \<le> row \<and> row < height fdr_raster \<and> 0 \<le> col \<and> col < width fdr_raster)"

text \<open>
  The point \<open>v\<close> has the map coordinates that \<^verbatim>\<open>get_coord_x\<close> and \<^verbatim>\<open>get_coord_y\<close> give
  for the cell (the specification's \<open>cellToPoint\<close>).
\<close>

definition is_cell_point :: "raster \<Rightarrow> int \<times> int \<Rightarrow> point \<Rightarrow> bool" where
  "is_cell_point fdr_raster cell v =
     (X v = get_coord_x (snd cell) (meanCellWidth fdr_raster) (upperLeft fdr_raster)
      \<and> Y v = get_coord_y (fst cell) (meanCellHeight fdr_raster) (upperLeft fdr_raster))"

text \<open>The Z of the point \<open>v\<close> is what the script reads for the cell.\<close>

definition has_surface_z :: "real ndarray option \<Rightarrow> int \<times> int \<Rightarrow> point \<Rightarrow> bool" where
  "has_surface_z fill cell v = (surface_z fill (fst cell) (snd cell) = Inr (Z v))"



text \<open>
  \<open>flow_path fdr a bs\<close>: in the sequence \<open>a, bs\<close> every cell is the result of
  \<^verbatim>\<open>move_to_next_pixel\<close> on its predecessor.
\<close>

fun flow_path :: "int ndarray \<Rightarrow> int \<times> int \<Rightarrow> (int \<times> int) list \<Rightarrow> bool" where
  "flow_path fdr a [] = True"
| "flow_path fdr a (b # bs) =
     (move_to_next_pixel fdr (fst a) (snd a) = Inr b \<and> flow_path fdr b bs)"

text \<open>
  Two different cells that flow into each other, both within the bounds that the loop
  tests (\<open>0 \<le> row \<le> max_row\<close>, \<open>0 \<le> col \<le> max_col\<close>) and both readable in the surface.
\<close>

definition two_cycle ::
  "raster \<Rightarrow> int ndarray \<Rightarrow> real ndarray option \<Rightarrow> int \<times> int \<Rightarrow> int \<times> int \<Rightarrow> bool" where
  "two_cycle fdr_raster fdr fill a b =
     (a \<noteq> b
      \<and> move_to_next_pixel fdr (fst a) (snd a) = Inr b
      \<and> move_to_next_pixel fdr (fst b) (snd b) = Inr a
      \<and> 0 \<le> fst a \<and> fst a \<le> height fdr_raster \<and> 0 \<le> snd a \<and> snd a \<le> width fdr_raster
      \<and> 0 \<le> fst b \<and> fst b \<le> height fdr_raster \<and> 0 \<le> snd b \<and> snd b \<le> width fdr_raster
      \<and> \<not> isl (surface_z fill (fst a) (snd a)) \<and> \<not> isl (surface_z fill (fst b) (snd b)))"

text \<open>
  The raster of the examples: \<open>nr\<close> rows and \<open>nc\<close> columns of 10 by 10 map units, upper
  left corner at \<open>(0, 100)\<close>.
\<close>

definition demo_raster :: "int \<Rightarrow> int \<Rightarrow> raster" where
  "demo_raster nr nc =
     \<lparr>meanCellWidth = 10, meanCellHeight = 10, height = nr, width = nc,
      upperLeft = \<lparr>X = 0, Y = 100, Z = 0\<rparr>\<rparr>"

section \<open>Properties\<close>

subsection \<open>Array reads\<close>

lemmas eval_defs =
  trace_seed_def raster_indices_def float_div_def py_int_def trace_step_def
  move_to_next_pixel_def getitem_def axis_index_def surface_z_def
  get_coord_x_def get_coord_y_def demo_raster_def in_grid_def has_shape_def
  is_cell_point_def has_surface_z_def

lemma axis_index_error: "axis_index n i = Inl e \<Longrightarrow> e = IndexError"
  by (auto simp: axis_index_def Let_def split: if_splits)

lemma axis_index_Inr: "axis_index n i = Inr j \<Longrightarrow> j < n"
  by (auto simp: axis_index_def Let_def split: if_splits)

lemma axis_index_in_range: "0 \<le> i \<Longrightarrow> i < int n \<Longrightarrow> axis_index n i = Inr (nat i)"
  by (simp add: axis_index_def)

lemma axis_index_high: "int n \<le> i \<Longrightarrow> axis_index n i = Inl IndexError"
  by (simp add: axis_index_def)

lemma getitem_error: "getitem a row col = Inl e \<Longrightarrow> e = IndexError"
  by (auto simp: getitem_def split: sum.splits dest: axis_index_error)

lemma has_shape_row: "has_shape a nr nc \<Longrightarrow> i < length a \<Longrightarrow> int (length (a ! i)) = nc"
  by (simp add: has_shape_def list_all_length)

lemma getitem_in_range:
  assumes sh: "has_shape a nr nc"
    and r: "0 \<le> row" "row < nr" and c: "0 \<le> col" "col < nc"
  shows "getitem a row col = Inr (a ! nat row ! nat col)"
proof -
  from sh r have i: "axis_index (length a) row = Inr (nat row)"
    by (simp add: axis_index_in_range has_shape_def)
  from sh r have "int (length (a ! nat row)) = nc"
    by (intro has_shape_row) (auto simp: has_shape_def)
  with c have "axis_index (length (a ! nat row)) col = Inr (nat col)"
    by (simp add: axis_index_in_range)
  with i show ?thesis by (simp add: getitem_def)
qed


lemma getitem_upper_edge:
  assumes sh: "has_shape a nr nc" and out: "row = nr \<or> col = nc"
  shows "getitem a row col = Inl IndexError"
proof (cases "axis_index (length a) row")
  case (Inl e)
  with axis_index_error [OF Inl] show ?thesis by (simp add: getitem_def)
next
  case (Inr i)
  then have i: "i < length a" by (rule axis_index_Inr)
  from Inr sh have "row \<noteq> nr"
    by (auto simp: has_shape_def axis_index_high)
  with out have "col = nc" by simp
  with has_shape_row [OF sh i] have "axis_index (length (a ! i)) col = Inl IndexError"
    by (simp add: axis_index_high)
  with Inr show ?thesis by (simp add: getitem_def)
qed

lemma axis_index_Inr_upper: "axis_index n i = Inr j \<Longrightarrow> i < int n"
  by (auto simp: axis_index_def Let_def split: if_splits)

lemma getitem_Inr_upper:
  assumes sh: "has_shape a nr nc" and ok: "getitem a row col = Inr z"
  shows "row < nr \<and> col < nc"
proof -
  from ok obtain i j where i: "axis_index (length a) row = Inr i"
    and j: "axis_index (length (a ! i)) col = Inr j"
    by (auto simp: getitem_def split: sum.splits)
  from axis_index_Inr [OF i] have "i < length a" .
  from has_shape_row [OF sh this] axis_index_Inr_upper [OF j] have "col < nc" by simp
  moreover from axis_index_Inr_upper [OF i] sh have "row < nr" by (simp add: has_shape_def)
  ultimately show ?thesis by simp
qed


subsection \<open>One step\<close>

lemma move_to_next_pixel_error: "move_to_next_pixel fdr row col = Inl e \<Longrightarrow> e = IndexError"
  by (auto simp: move_to_next_pixel_def split: sum.splits dest: getitem_error)

lemma move_to_next_pixel_near:
  "move_to_next_pixel fdr row col = Inr (r, c) \<Longrightarrow> \<bar>r - row\<bar> \<le> 1 \<and> \<bar>c - col\<bar> \<le> 1"
  by (auto simp: move_to_next_pixel_def split: sum.splits if_splits)


lemma flow_path_last_near:
  "flow_path fdr a cs \<Longrightarrow> cs \<noteq> [] \<Longrightarrow>
     \<bar>fst (last cs) - fst (last (butlast (a # cs)))\<bar> \<le> 1
     \<and> \<bar>snd (last cs) - snd (last (butlast (a # cs)))\<bar> \<le> 1"
proof (induction cs arbitrary: a)
  case Nil
  then show ?case by simp
next
  case (Cons b bs)
  show ?case
  proof (cases bs)
    case Nil
    from Cons.prems(1) have "move_to_next_pixel fdr (fst a) (snd a) = Inr (fst b, snd b)"
      by simp
    from move_to_next_pixel_near [OF this] Nil show ?thesis by simp
  next
    case (Cons c cs')
    from Cons.prems(1) have "flow_path fdr b bs" by simp
    from Cons.IH [OF this] Cons show ?thesis by simp
  qed
qed

lemma abs_py_int: "\<bar>py_int x\<bar> = py_int \<bar>x\<bar>"
proof (cases "0 \<le> x")
  case True
  then have "0 \<le> \<lfloor>x\<rfloor>" by simp
  with True show ?thesis by (simp add: py_int_def)
next
  case False
  then have "0 \<le> \<lfloor>- x\<rfloor>" by simp
  with False show ?thesis by (simp add: py_int_def)
qed

lemma raster_indices_nonneg:
  "raster_indices fdr_raster pnt = Inr (row, col) \<Longrightarrow> 0 \<le> row \<and> 0 \<le> col"
  by (auto simp: raster_indices_def Let_def split: sum.splits)

subsection \<open>One iteration of the loop\<close>

lemma trace_step_eq:
  assumes "move_to_next_pixel fdr (st_row s) (st_col s) = Inr (row, col)"
    and "surface_z fill row col = Inr z"
  shows "trace_step fdr_raster fdr fill s =
       Inr (\<lparr>st_row = row, st_col = col,
             st_array = st_array s @
               [\<lparr>X = get_coord_x col (meanCellWidth fdr_raster) (upperLeft fdr_raster),
                 Y = get_coord_y row (meanCellHeight fdr_raster) (upperLeft fdr_raster),
                 Z = z\<rparr>]\<rparr>,
            (st_row s = row \<and> st_col s = col)
            \<or> (row < 0 \<or> row > height fdr_raster)
            \<or> (col < 0 \<or> col > width fdr_raster))"
  using assms by (simp add: trace_step_def Let_def)

lemma trace_step_move_error:
  "move_to_next_pixel fdr (st_row s) (st_col s) = Inl e \<Longrightarrow>
     trace_step fdr_raster fdr fill s = Inl e"
  by (simp add: trace_step_def)

lemma trace_step_surface_error:
  "move_to_next_pixel fdr (st_row s) (st_col s) = Inr (row, col) \<Longrightarrow>
     surface_z fill row col = Inl e \<Longrightarrow> trace_step fdr_raster fdr fill s = Inl e"
  by (simp add: trace_step_def)

lemma trace_step_Inr:
  assumes "trace_step fdr_raster fdr fill s = Inr (s', done)"
  shows "move_to_next_pixel fdr (st_row s) (st_col s) = Inr (st_row s', st_col s')"
    and "\<exists>v. st_array s' = st_array s @ [v]
           \<and> is_cell_point fdr_raster (st_row s', st_col s') v
           \<and> has_surface_z fill (st_row s', st_col s') v"
    and "done \<longleftrightarrow> (st_row s = st_row s' \<and> st_col s = st_col s')
           \<or> st_row s' < 0 \<or> st_row s' > height fdr_raster
           \<or> st_col s' < 0 \<or> st_col s' > width fdr_raster"
proof -
  obtain row col where mv: "move_to_next_pixel fdr (st_row s) (st_col s) = Inr (row, col)"
    using assms trace_step_move_error [of fdr s _ fdr_raster fill]
    by (cases "move_to_next_pixel fdr (st_row s) (st_col s)") auto
  obtain z where z: "surface_z fill row col = Inr z"
    using assms trace_step_surface_error [OF mv, of fill _ fdr_raster]
    by (cases "surface_z fill row col") auto
  from trace_step_eq [OF mv z, of fdr_raster] assms have
    s': "s' = \<lparr>st_row = row, st_col = col,
             st_array = st_array s @
               [\<lparr>X = get_coord_x col (meanCellWidth fdr_raster) (upperLeft fdr_raster),
                 Y = get_coord_y row (meanCellHeight fdr_raster) (upperLeft fdr_raster),
                 Z = z\<rparr>]\<rparr>"
    and d: "done = ((st_row s = row \<and> st_col s = col)
            \<or> (row < 0 \<or> row > height fdr_raster)
            \<or> (col < 0 \<or> col > width fdr_raster))"
    by simp_all
  from s' mv show "move_to_next_pixel fdr (st_row s) (st_col s) = Inr (st_row s', st_col s')"
    by simp
  from s' z show "\<exists>v. st_array s' = st_array s @ [v]
           \<and> is_cell_point fdr_raster (st_row s', st_col s') v
           \<and> has_surface_z fill (st_row s', st_col s') v"
    by (simp add: is_cell_point_def has_surface_z_def)
  from s' d show "done \<longleftrightarrow> (st_row s = st_row s' \<and> st_col s = st_col s')
           \<or> st_row s' < 0 \<or> st_row s' > height fdr_raster
           \<or> st_col s' < 0 \<or> st_col s' > width fdr_raster"
    by auto
qed

subsection \<open>The loop\<close>

lemma trace_loop_unfold:
  "trace_step fdr_raster fdr fill s = Inr (s', done) \<Longrightarrow>
     trace_loop fdr_raster fdr fill s =
       (if done then Some (Inr (st_array s')) else trace_loop fdr_raster fdr fill s')"
  by (subst trace_loop.simps) simp


text \<open>
  Whatever the loop returns extends the array it started with by the points of the cells
  it stepped through, at least one.
\<close>

lemma trace_loop_path:
  "trace_loop fdr_raster fdr fill s = Some r \<Longrightarrow> r = Inr vs \<Longrightarrow>
     \<exists>cs ws. cs \<noteq> [] \<and> vs = st_array s @ ws
       \<and> list_all2 (is_cell_point fdr_raster) cs ws
       \<and> list_all2 (has_surface_z fill) cs ws
       \<and> flow_path fdr (st_row s, st_col s) cs"
proof (induction fdr_raster fdr fill s r arbitrary: vs
    rule: trace_loop.raw_induct [rotated 1, consumes 1, case_names body])
  case (body loop fdr_raster fdr fill s r)
  note eq = body.hyps and req = body.prems
  from eq req obtain s' dn where
    step: "trace_step fdr_raster fdr fill s = Inr (s', dn)"
    by (auto split: sum.splits)
  from trace_step_Inr(2) [OF step] obtain v where
    v: "st_array s' = st_array s @ [v]"
      "is_cell_point fdr_raster (st_row s', st_col s') v"
      "has_surface_z fill (st_row s', st_col s') v"
    by blast
  note mv = trace_step_Inr(1) [OF step]
  show ?case
  proof (cases dn)
    case True
    with eq req step have "vs = st_array s'" by simp
    with v mv show ?thesis
      by (intro exI [of _ "[(st_row s', st_col s')]"] exI [of _ "[v]"]) simp
  next
    case False
    with eq step have "loop fdr_raster fdr fill s' = Some r" by simp
    from body.IH [OF this req] obtain cs ws where
      ih: "cs \<noteq> []" "vs = st_array s' @ ws"
        "list_all2 (is_cell_point fdr_raster) cs ws"
        "list_all2 (has_surface_z fill) cs ws"
        "flow_path fdr (st_row s', st_col s') cs"
      by blast
    with v mv show ?thesis
      by (intro exI [of _ "(st_row s', st_col s') # cs"] exI [of _ "v # ws"]) simp
  qed
qed

text \<open>
  The same, with the bounds of the cells the loop went on from: every cell but the last
  passed the tests of \<^verbatim>\<open>done\<close>.
\<close>

lemma trace_loop_path_bounds:
  "trace_loop fdr_raster fdr fill s = Some r \<Longrightarrow> r = Inr vs \<Longrightarrow>
     \<exists>cs ws. cs \<noteq> [] \<and> vs = st_array s @ ws
       \<and> list_all2 (is_cell_point fdr_raster) cs ws
       \<and> list_all2 (has_surface_z fill) cs ws
       \<and> flow_path fdr (st_row s, st_col s) cs
       \<and> list_all (\<lambda>c. 0 \<le> fst c \<and> fst c \<le> height fdr_raster
                       \<and> 0 \<le> snd c \<and> snd c \<le> width fdr_raster) (butlast cs)"
proof (induction fdr_raster fdr fill s r arbitrary: vs
    rule: trace_loop.raw_induct [rotated 1, consumes 1, case_names body])
  case (body loop fdr_raster fdr fill s r)
  note eq = body.hyps and req = body.prems
  from eq req obtain s' dn where
    step: "trace_step fdr_raster fdr fill s = Inr (s', dn)"
    by (auto split: sum.splits)
  from trace_step_Inr(2) [OF step] obtain v where
    v: "st_array s' = st_array s @ [v]"
      "is_cell_point fdr_raster (st_row s', st_col s') v"
      "has_surface_z fill (st_row s', st_col s') v"
    by blast
  note mv = trace_step_Inr(1) [OF step]
  show ?case
  proof (cases dn)
    case True
    with eq req step have "vs = st_array s'" by simp
    with v mv show ?thesis
      by (intro exI [of _ "[(st_row s', st_col s')]"] exI [of _ "[v]"]) simp
  next
    case False
    with trace_step_Inr(3) [OF step] have
      bd: "0 \<le> st_row s'" "st_row s' \<le> height fdr_raster"
        "0 \<le> st_col s'" "st_col s' \<le> width fdr_raster"
      by auto
    from False eq step have "loop fdr_raster fdr fill s' = Some r" by simp
    from body.IH [OF this req] obtain cs ws where
      ih: "cs \<noteq> []" "vs = st_array s' @ ws"
        "list_all2 (is_cell_point fdr_raster) cs ws"
        "list_all2 (has_surface_z fill) cs ws"
        "flow_path fdr (st_row s', st_col s') cs"
        "list_all (\<lambda>c. 0 \<le> fst c \<and> fst c \<le> height fdr_raster
                       \<and> 0 \<le> snd c \<and> snd c \<le> width fdr_raster) (butlast cs)"
      by blast
    with v mv bd show ?thesis
      by (intro exI [of _ "(st_row s', st_col s') # cs"] exI [of _ "v # ws"]) simp
  qed
qed

lemma trace_seed_Inr:
  assumes "trace_seed fdr_raster fdr fill pnt = Some (Inr vs)"
  shows "\<exists>row col z cs ws. raster_indices fdr_raster pnt = Inr (row, col)
           \<and> surface_z fill row col = Inr z
           \<and> vs = \<lparr>X = fst pnt, Y = snd pnt, Z = z\<rparr> # ws
           \<and> cs \<noteq> []
           \<and> list_all2 (is_cell_point fdr_raster) cs ws
           \<and> list_all2 (has_surface_z fill) cs ws
           \<and> flow_path fdr (row, col) cs"
proof -
  from assms obtain row col z where
    ri: "raster_indices fdr_raster pnt = Inr (row, col)"
    and z: "surface_z fill row col = Inr z"
    and loop: "trace_loop fdr_raster fdr fill
                 \<lparr>st_row = row, st_col = col,
                  st_array = [\<lparr>X = fst pnt, Y = snd pnt, Z = z\<rparr>]\<rparr> = Some (Inr vs)"
    by (auto simp: trace_seed_def split: sum.splits prod.splits)
  from trace_loop_path [OF loop refl] ri z show ?thesis by auto
qed

lemma trace_loop_sink:
  assumes g: "getitem fdr row col = Inr v"
    and v: "v \<notin> {1, 2, 4, 8, 16, 32, 64, 128}"
    and z: "surface_z fill row col = Inr z"
  shows "trace_loop fdr_raster fdr fill \<lparr>st_row = row, st_col = col, st_array = arr\<rparr>
     = Some (Inr (arr @ [\<lparr>X = get_coord_x col (meanCellWidth fdr_raster) (upperLeft fdr_raster),
                         Y = get_coord_y row (meanCellHeight fdr_raster) (upperLeft fdr_raster),
                         Z = z\<rparr>]))"
proof -
  from g v have "move_to_next_pixel fdr row col = Inr (row, col)"
    by (simp add: move_to_next_pixel_def)
  with z have "trace_step fdr_raster fdr fill \<lparr>st_row = row, st_col = col, st_array = arr\<rparr>
     = Inr (\<lparr>st_row = row, st_col = col,
             st_array = arr @ [\<lparr>X = get_coord_x col (meanCellWidth fdr_raster) (upperLeft fdr_raster),
                         Y = get_coord_y row (meanCellHeight fdr_raster) (upperLeft fdr_raster),
                         Z = z\<rparr>]\<rparr>, True)"
    using trace_step_eq [of fdr "\<lparr>st_row = row, st_col = col, st_array = arr\<rparr>" row col fill z
        fdr_raster]
    by simp
  from trace_loop_unfold [OF this] show ?thesis by simp
qed

lemma list_all2_left_memberD:
  "list_all2 P xs ys \<Longrightarrow> x \<in> set xs \<Longrightarrow> \<exists>y. P x y"
  by (induction xs ys rule: list_all2_induct) auto

lemma list_all2_None_z:
  "list_all2 (has_surface_z None) cs ws \<Longrightarrow> list_all (\<lambda>v. Z v = 0) ws"
  by (induction cs ws rule: list_all2_induct) (auto simp: has_surface_z_def surface_z_def)

subsection \<open>A cycle of two cells\<close>

lemma two_cycle_step:
  assumes cyc: "two_cycle fdr_raster fdr fill a b"
    and cell: "(st_row s, st_col s) \<in> {a, b}"
  shows "\<exists>s'. trace_step fdr_raster fdr fill s = Inr (s', False)
           \<and> (st_row s', st_col s') \<in> {a, b}"
proof -
  obtain row col where c: "(row, col) = (if (st_row s, st_col s) = a then b else a)"
    by (metis surj_pair)
  from cyc cell c have mv: "move_to_next_pixel fdr (st_row s) (st_col s) = Inr (row, col)"
    and ne: "\<not> (st_row s = row \<and> st_col s = col)"
    and bd: "0 \<le> row" "row \<le> height fdr_raster" "0 \<le> col" "col \<le> width fdr_raster"
    and sz: "\<not> isl (surface_z fill row col)"
    and ab: "(row, col) \<in> {a, b}"
    by (auto simp: two_cycle_def split: if_splits)
  from sz obtain z where z: "surface_z fill row col = Inr z"
    by (cases "surface_z fill row col") auto
  from trace_step_eq [OF mv z, of fdr_raster] ne bd ab show ?thesis by simp
qed

lemma two_cycle_no_result:
  "trace_loop fdr_raster fdr fill s = Some r \<Longrightarrow> two_cycle fdr_raster fdr fill a b
     \<Longrightarrow> (st_row s, st_col s) \<notin> {a, b}"
proof (induction fdr_raster fdr fill s r
    rule: trace_loop.raw_induct [rotated 1, consumes 1, case_names body])
  case (body loop fdr_raster fdr fill s r)
  show ?case
  proof
    assume cell: "(st_row s, st_col s) \<in> {a, b}"
    from two_cycle_step [OF body.prems cell] obtain s' where
      step: "trace_step fdr_raster fdr fill s = Inr (s', False)"
      and other: "(st_row s', st_col s') \<in> {a, b}"
      by blast
    from body.hyps step have "loop fdr_raster fdr fill s' = Some r" by simp
    from body.IH [OF this body.prems] other show False by simp
  qed
qed

lemma two_cycle_diverges:
  assumes "two_cycle fdr_raster fdr fill a b" and "(st_row s, st_col s) \<in> {a, b}"
  shows "trace_loop fdr_raster fdr fill s = None"
proof (cases "trace_loop fdr_raster fdr fill s")
  case None
  then show ?thesis .
next
  case (Some r)
  from two_cycle_no_result [OF Some assms(1)] assms(2) show ?thesis by simp
qed

subsection \<open>Example runs\<close>

text \<open>
  A 2 by 2 raster: \<open>(0, 0)\<close> flows east, \<open>(0, 1)\<close> flows south, the second row are sinks.
  The sink's point is written twice: once when it is reached, once by the iteration that
  finds it does not move.
\<close>

lemma demo_trace:
  "trace_seed (demo_raster 2 2) [[1, 4], [0, 0]] (Some [[30, 20], [25, 10]]) (3, 98)
     = Some (Inr [\<lparr>X = 3, Y = 98, Z = 30\<rparr>, \<lparr>X = 5, Y = 105, Z = 20\<rparr>,
                  \<lparr>X = 5, Y = 95, Z = 10\<rparr>, \<lparr>X = 5, Y = 95, Z = 10\<rparr>])"
  by (simp add: eval_defs Let_def trace_loop.simps)

lemma demo_trace_flat:
  "trace_seed (demo_raster 2 2) [[1, 4], [0, 0]] None (3, 98)
     = Some (Inr [\<lparr>X = 3, Y = 98, Z = 0\<rparr>, \<lparr>X = 5, Y = 105, Z = 0\<rparr>,
                  \<lparr>X = 5, Y = 95, Z = 0\<rparr>, \<lparr>X = 5, Y = 95, Z = 0\<rparr>])"
  by (simp add: eval_defs Let_def trace_loop.simps)

text \<open>
  A raster of one row whose first cell flows west: the trace leaves through the west
  edge, and the Z of its last point is read at column \<open>-1\<close>.
\<close>

lemma demo_trace_west:
  "trace_seed (demo_raster 1 2) [[16, 0]] (Some [[7, 3]]) (5, 95)
     = Some (Inr [\<lparr>X = 5, Y = 95, Z = 7\<rparr>, \<lparr>X = - 15, Y = 105, Z = 3\<rparr>])"
  by (simp add: eval_defs Let_def trace_loop.simps)

section \<open>The claims\<close>

subsection \<open>C1: the flow step\<close>

text \<open>
  Claim C1.  Where the flow-direction array can be read at \<open>(row, col)\<close> and holds \<open>v\<close>,
  \<^verbatim>\<open>move_to_next_pixel\<close> returns the neighbour one step in the direction of the code:
  1 east, 2 south-east, 4 south, 8 south-west, 16 west, 32 north-west, 64 north,
  128 north-east, as the specification's table has it; for any other value it returns
  \<open>(row, col)\<close> itself.
\<close>

theorem move_to_next_pixel_follows_table:
  assumes "getitem fdr row col = Inr v"
  shows "move_to_next_pixel fdr row col = Inr (spec_step (row, col) v)
       \<and> (v = 1 \<longrightarrow> move_to_next_pixel fdr row col = Inr (row, col + 1))
       \<and> (v = 2 \<longrightarrow> move_to_next_pixel fdr row col = Inr (row + 1, col + 1))
       \<and> (v = 4 \<longrightarrow> move_to_next_pixel fdr row col = Inr (row + 1, col))
       \<and> (v = 8 \<longrightarrow> move_to_next_pixel fdr row col = Inr (row + 1, col - 1))
       \<and> (v = 16 \<longrightarrow> move_to_next_pixel fdr row col = Inr (row, col - 1))
       \<and> (v = 32 \<longrightarrow> move_to_next_pixel fdr row col = Inr (row - 1, col - 1))
       \<and> (v = 64 \<longrightarrow> move_to_next_pixel fdr row col = Inr (row - 1, col))
       \<and> (v = 128 \<longrightarrow> move_to_next_pixel fdr row col = Inr (row - 1, col + 1))
       \<and> (v \<notin> {1, 2, 4, 8, 16, 32, 64, 128} \<longrightarrow>
             move_to_next_pixel fdr row col = Inr (row, col))"
  using assms by (simp add: move_to_next_pixel_def spec_step_def spec_step_table_def)

theorem move_to_next_pixel_follows_table_witness:
  "getitem [[1, 4], [0, 0]] 0 1 = Inr (4::int)
   \<and> move_to_next_pixel [[1, 4], [0, 0]] 0 1 = Inr (1, 1)
   \<and> getitem [[1, 4], [0, 0]] 1 1 = Inr (0::int)
   \<and> move_to_next_pixel [[1, 4], [0, 0]] 1 1 = Inr (1, 1)"
proof -
  have a: "getitem [[1, 4], [0, 0]] 0 1 = Inr (4::int)"
    by (simp add: getitem_def axis_index_def)
  have b: "getitem [[1, 4], [0, 0]] 1 1 = Inr (0::int)"
    by (simp add: getitem_def axis_index_def)
  show ?thesis
    using a b move_to_next_pixel_follows_table [OF a] move_to_next_pixel_follows_table [OF b]
    by (simp add: spec_step_def spec_step_table_def)
qed

subsection \<open>C2: when the loop ends\<close>



subsection \<open>C3: the shape of a trace\<close>



subsection \<open>C4: from a cell to map coordinates\<close>

text \<open>
  Claim C4.  \<^verbatim>\<open>get_coord_x\<close> returns \<open>upper_left.X + (col - 1) * cell_width + cell_width / 2\<close>
  and \<^verbatim>\<open>get_coord_y\<close> returns
  \<open>upper_left.Y - (row - 1) * cell_height - cell_height / 2\<close>, with the offset of one
  cell as written; these are the coordinates of the point that an iteration appends for
  the cell it stepped to.
\<close>

theorem get_coord_formula:
  "get_coord_x col cell_width upper_left
     = X upper_left + (of_int col - 1) * cell_width + cell_width / 2
   \<and> get_coord_y row cell_height upper_left
     = Y upper_left - (of_int row - 1) * cell_height - cell_height / 2
   \<and> (trace_step fdr_raster fdr fill s = Inr (s', done) \<longrightarrow>
        X (last (st_array s'))
          = X (upperLeft fdr_raster) + (of_int (st_col s') - 1) * meanCellWidth fdr_raster
              + meanCellWidth fdr_raster / 2
        \<and> Y (last (st_array s'))
          = Y (upperLeft fdr_raster) - (of_int (st_row s') - 1) * meanCellHeight fdr_raster
              - meanCellHeight fdr_raster / 2)"
proof -
  have x: "get_coord_x col cell_width upper_left
     = X upper_left + (of_int col - 1) * cell_width + cell_width / 2" for col cell_width upper_left
    by (simp add: get_coord_x_def)
  have y: "get_coord_y row cell_height upper_left
     = Y upper_left - (of_int row - 1) * cell_height - cell_height / 2" for row cell_height upper_left
    by (simp add: get_coord_y_def)
  have "X (last (st_array s'))
          = get_coord_x (st_col s') (meanCellWidth fdr_raster) (upperLeft fdr_raster)
      \<and> Y (last (st_array s'))
          = get_coord_y (st_row s') (meanCellHeight fdr_raster) (upperLeft fdr_raster)"
    if "trace_step fdr_raster fdr fill s = Inr (s', done)"
    using trace_step_Inr(2) [OF that] by (auto simp: is_cell_point_def)
  with x y show ?thesis by simp
qed

theorem get_coord_formula_witness:
  "trace_step (demo_raster 2 2) [[1, 4], [0, 0]] None \<lparr>st_row = 0, st_col = 0, st_array = []\<rparr>
     = Inr (\<lparr>st_row = 0, st_col = 1, st_array = [\<lparr>X = 5, Y = 105, Z = 0\<rparr>]\<rparr>, False)
   \<and> get_coord_x 1 10 \<lparr>X = 0, Y = 100, Z = 0\<rparr> = 5
   \<and> get_coord_y 0 10 \<lparr>X = 0, Y = 100, Z = 0\<rparr> = 105"
proof -
  have st: "trace_step (demo_raster 2 2) [[1, 4], [0, 0]] None
              \<lparr>st_row = 0, st_col = 0, st_array = []\<rparr>
     = Inr (\<lparr>st_row = 0, st_col = 1, st_array = [\<lparr>X = 5, Y = 105, Z = 0\<rparr>]\<rparr>, False)"
    by (simp add: eval_defs Let_def)
  from get_coord_formula [of 1 10 "\<lparr>X = 0, Y = 100, Z = 0\<rparr>" 0 10 "demo_raster 2 2"
      "[[1, 4], [0, 0]]" None "\<lparr>st_row = 0, st_col = 0, st_array = []\<rparr>"
      "\<lparr>st_row = 0, st_col = 1, st_array = [\<lparr>X = 5, Y = 105, Z = 0\<rparr>]\<rparr>" False] st
  show ?thesis by simp
qed

subsection \<open>C5: from a seed point to a cell\<close>

text \<open>
  Claim C5.  With non-zero cell sizes the indices computed for a seed are
  \<open>row = trunc (abs ((upper_left.Y - y) / cell_height))\<close> and
  \<open>col = trunc (abs ((upper_left.X - x) / cell_width))\<close>: the script's absolute value of
  the truncation is the specification's truncation of the absolute value.  A zero cell
  size raises \<open>ZeroDivisionError\<close>.  Nothing compares the result with the size of the
  raster: in a 5 by 5 raster the seed \<open>(1000, 95)\<close> gets the column 100.
\<close>

theorem raster_indices_formula:
  "(meanCellWidth fdr_raster \<noteq> 0 \<and> meanCellHeight fdr_raster \<noteq> 0 \<longrightarrow>
      raster_indices fdr_raster pnt = Inr (spec_pointToCell fdr_raster pnt))
   \<and> (meanCellWidth fdr_raster = 0 \<or> meanCellHeight fdr_raster = 0 \<longrightarrow>
      raster_indices fdr_raster pnt = Inl ZeroDivisionError)
   \<and> raster_indices (demo_raster 5 5) (1000, 95) = Inr (0, 100)
   \<and> \<not> in_grid (demo_raster 5 5) 0 100"
proof -
  have a: "raster_indices fdr_raster pnt = Inr (spec_pointToCell fdr_raster pnt)"
    if "meanCellWidth fdr_raster \<noteq> 0" "meanCellHeight fdr_raster \<noteq> 0"
    using that
    by (simp add: raster_indices_def Let_def float_div_def spec_pointToCell_def abs_py_int)
  have b: "raster_indices fdr_raster pnt = Inl ZeroDivisionError"
    if "meanCellWidth fdr_raster = 0 \<or> meanCellHeight fdr_raster = 0"
    using that by (auto simp: raster_indices_def Let_def float_div_def)
  have c: "raster_indices (demo_raster 5 5) (1000, 95) = Inr (0, 100)"
    by (simp add: eval_defs)
  have d: "\<not> in_grid (demo_raster 5 5) 0 100"
    by (simp add: eval_defs)
  from a b c d show ?thesis by blast
qed

theorem raster_indices_formula_witness:
  "meanCellWidth (demo_raster 5 5) \<noteq> 0 \<and> meanCellHeight (demo_raster 5 5) \<noteq> 0
   \<and> raster_indices (demo_raster 5 5) (27, 5) = Inr (9, 2)
   \<and> spec_pointToCell (demo_raster 5 5) (27, 5) = (9, 2)
   \<and> \<not> in_grid (demo_raster 5 5) 9 2
   \<and> raster_indices ((demo_raster 5 5)\<lparr>meanCellWidth := 0\<rparr>) (27, 5) = Inl ZeroDivisionError"
proof -
  have w: "meanCellWidth (demo_raster 5 5) \<noteq> 0 \<and> meanCellHeight (demo_raster 5 5) \<noteq> 0"
    by (simp add: demo_raster_def)
  have s: "spec_pointToCell (demo_raster 5 5) (27, 5) = (9, 2)"
    by (simp add: spec_pointToCell_def py_int_def demo_raster_def)
  have g: "\<not> in_grid (demo_raster 5 5) 9 2"
    by (simp add: eval_defs)
  from raster_indices_formula [of "demo_raster 5 5" "(27, 5)"]
    raster_indices_formula [of "(demo_raster 5 5)\<lparr>meanCellWidth := 0\<rparr>" "(27, 5)"] w s g
  show ?thesis by simp
qed

subsection \<open>C6: a cycle in the flow directions\<close>

text \<open>
  Claim C6.  In the raster of one row whose cell \<open>(0, 0)\<close> flows east and whose cell
  \<open>(0, 1)\<close> flows west, each cell steps to the other, and the trace of a seed in
  \<open>(0, 0)\<close> has no result, with or without a surface raster: the loop never ends, because
  the new cell always differs from the previous one and stays within the bounds.
\<close>

theorem two_cell_cycle_never_ends:
  "move_to_next_pixel [[1, 16]] 0 0 = Inr (0, 1)
   \<and> move_to_next_pixel [[1, 16]] 0 1 = Inr (0, 0)
   \<and> has_shape [[1, 16 :: int]] (height (demo_raster 1 2)) (width (demo_raster 1 2))
   \<and> raster_indices (demo_raster 1 2) (5, 95) = Inr (0, 0)
   \<and> trace_seed (demo_raster 1 2) [[1, 16]] None (5, 95) = None
   \<and> trace_seed (demo_raster 1 2) [[1, 16]] (Some [[7, 3]]) (5, 95) = None"
proof -
  have a: "move_to_next_pixel [[1, 16]] 0 0 = Inr (0, 1)"
    by (simp add: eval_defs)
  have b: "move_to_next_pixel [[1, 16]] 0 1 = Inr (0, 0)"
    by (simp add: eval_defs)
  have sh: "has_shape [[1, 16 :: int]] (height (demo_raster 1 2)) (width (demo_raster 1 2))"
    by (simp add: eval_defs)
  have ri: "raster_indices (demo_raster 1 2) (5, 95) = Inr (0, 0)"
    by (simp add: eval_defs)
  have cyc: "two_cycle (demo_raster 1 2) [[1, 16]] fill (0, 0) (0, 1)"
    if "fill = None \<or> fill = Some [[7, 3]]" for fill
    using that a b
    by (auto simp: two_cycle_def demo_raster_def surface_z_def getitem_def axis_index_def)
  have "trace_loop (demo_raster 1 2) [[1, 16]] fill \<lparr>st_row = 0, st_col = 0, st_array = arr\<rparr>
          = None"
    if "fill = None \<or> fill = Some [[7, 3]]" for fill arr
    by (rule two_cycle_diverges [OF cyc [OF that]]) simp
  then have "trace_seed (demo_raster 1 2) [[1, 16]] None (5, 95) = None"
    and "trace_seed (demo_raster 1 2) [[1, 16]] (Some [[7, 3]]) (5, 95) = None"
    by (simp_all add: trace_seed_def ri surface_z_def getitem_def axis_index_def)
  with a b sh ri show ?thesis by simp
qed

subsection \<open>C7: a seed outside the raster\<close>




subsection \<open>C8: where the surface is read\<close>

text \<open>
  Claim C8 says that the surface is only ever read at a cell within the valid index
  range.  It is read at the cell stepped to, before any test of the bounds: from the
  only cell of a 1 by 1 raster that flows south the step leads to \<open>(1, 0)\<close>, which is
  out of range, the read of the surface there fails, and the iteration and the trace
  end with \<open>IndexError\<close>.
\<close>

theorem surface_sampled_out_of_range:
  "in_grid (demo_raster 1 1) 0 0
   \<and> move_to_next_pixel [[4]] 0 0 = Inr (1, 0)
   \<and> \<not> in_grid (demo_raster 1 1) 1 0
   \<and> surface_z (Some [[7]]) 1 0 = Inl IndexError
   \<and> trace_step (demo_raster 1 1) [[4]] (Some [[7]])
        \<lparr>st_row = 0, st_col = 0, st_array = [\<lparr>X = 5, Y = 95, Z = 7\<rparr>]\<rparr> = Inl IndexError
   \<and> trace_seed (demo_raster 1 1) [[4]] (Some [[7]]) (5, 95) = Some (Inl IndexError)"
  by (simp add: eval_defs Let_def trace_loop.simps)

text \<open>
  Claim C8, amended.  With both arrays of the raster's shape, an iteration that starts at
  a cell in range reads the surface at the cell it steps to, before the tests of
  \<^verbatim>\<open>done\<close>.  That cell is in range or one step outside
  (\<open>-1 \<le> row \<le> rows\<close>, \<open>-1 \<le> col \<le> cols\<close>).  The read does not raise for a cell in range
  and gives the array's entry there; it raises \<open>IndexError\<close> when \<open>row = rows\<close> or
  \<open>col = cols\<close>; and an error of the read is the result of the iteration.
\<close>

theorem surface_sampled_before_bounds_test:
  assumes fdr: "has_shape fdr (height fdr_raster) (width fdr_raster)"
    and fill: "has_shape a (height fdr_raster) (width fdr_raster)"
    and cell: "in_grid fdr_raster (st_row s) (st_col s)"
  shows "\<exists>row col. move_to_next_pixel fdr (st_row s) (st_col s) = Inr (row, col)
           \<and> - 1 \<le> row \<and> row \<le> height fdr_raster \<and> - 1 \<le> col \<and> col \<le> width fdr_raster
           \<and> (in_grid fdr_raster row col \<longrightarrow>
                 surface_z (Some a) row col = Inr (a ! nat row ! nat col))
           \<and> (row = height fdr_raster \<or> col = width fdr_raster \<longrightarrow>
                 surface_z (Some a) row col = Inl IndexError)
           \<and> (\<forall>e. surface_z (Some a) row col = Inl e \<longrightarrow>
                 trace_step fdr_raster fdr (Some a) s = Inl e)"
proof -
  from cell have c: "0 \<le> st_row s" "st_row s < height fdr_raster"
    "0 \<le> st_col s" "st_col s < width fdr_raster"
    by (simp_all add: in_grid_def)
  from getitem_in_range [OF fdr c] obtain row col where
    mv: "move_to_next_pixel fdr (st_row s) (st_col s) = Inr (row, col)"
    by (cases "move_to_next_pixel fdr (st_row s) (st_col s)")
      (auto simp: move_to_next_pixel_def)
  from move_to_next_pixel_near [OF mv] c have
    near: "- 1 \<le> row" "row \<le> height fdr_raster" "- 1 \<le> col" "col \<le> width fdr_raster"
    by auto
  have inr: "surface_z (Some a) row col = Inr (a ! nat row ! nat col)"
    if "in_grid fdr_raster row col"
    using that getitem_in_range [OF fill, of row col] by (simp add: in_grid_def surface_z_def)
  have high: "surface_z (Some a) row col = Inl IndexError"
    if "row = height fdr_raster \<or> col = width fdr_raster"
    using getitem_upper_edge [OF fill that] by (simp add: surface_z_def)
  have err: "trace_step fdr_raster fdr (Some a) s = Inl e"
    if "surface_z (Some a) row col = Inl e" for e
    using trace_step_surface_error [OF mv that] .
  from mv near inr high err show ?thesis by blast
qed

text \<open>
  The witness steps north out of a raster of two rows: the cell read is \<open>(-1, 0)\<close>, and
  numpy's index rule makes that the entry of the last row, so the iteration does not
  raise and the point written carries the Z of the cell \<open>(1, 0)\<close>.
\<close>

theorem surface_sampled_before_bounds_test_witness:
  "has_shape [[64], [0 :: int]] (height (demo_raster 2 1)) (width (demo_raster 2 1))
   \<and> has_shape [[7], [9 :: real]] (height (demo_raster 2 1)) (width (demo_raster 2 1))
   \<and> in_grid (demo_raster 2 1) 0 0
   \<and> move_to_next_pixel [[64], [0]] 0 0 = Inr (- 1, 0)
   \<and> \<not> in_grid (demo_raster 2 1) (- 1) 0
   \<and> surface_z (Some [[7], [9]]) (- 1) 0 = Inr 9
   \<and> trace_step (demo_raster 2 1) [[64], [0]] (Some [[7], [9]])
        \<lparr>st_row = 0, st_col = 0, st_array = []\<rparr>
       = Inr (\<lparr>st_row = - 1, st_col = 0, st_array = [\<lparr>X = - 5, Y = 115, Z = 9\<rparr>]\<rparr>, True)"
proof -
  have f: "has_shape [[64], [0 :: int]] (height (demo_raster 2 1)) (width (demo_raster 2 1))"
    by (simp add: eval_defs)
  have g: "has_shape [[7], [9 :: real]] (height (demo_raster 2 1)) (width (demo_raster 2 1))"
    by (simp add: eval_defs)
  have c: "in_grid (demo_raster 2 1) (st_row \<lparr>st_row = 0, st_col = 0, st_array = []\<rparr>)
             (st_col \<lparr>st_row = 0, st_col = 0, st_array = []\<rparr>)"
    by (simp add: eval_defs)
  have mv: "move_to_next_pixel [[64], [0]] 0 0 = Inr (- 1, 0)"
    by (simp add: eval_defs)
  have rest: "\<not> in_grid (demo_raster 2 1) (- 1) 0"
    "surface_z (Some [[7], [9]]) (- 1) 0 = Inr 9"
    "trace_step (demo_raster 2 1) [[64], [0]] (Some [[7], [9]])
        \<lparr>st_row = 0, st_col = 0, st_array = []\<rparr>
       = Inr (\<lparr>st_row = - 1, st_col = 0, st_array = [\<lparr>X = - 5, Y = 115, Z = 9\<rparr>]\<rparr>, True)"
    by (simp_all add: eval_defs Let_def)
  from surface_sampled_before_bounds_test [OF f g c] f g c mv rest show ?thesis by simp
qed

subsection \<open>C9: the Z of the points\<close>

text \<open>
  Claim C9 says that with a surface raster every point has the elevation grid's value at
  its cell.  In a raster of one row whose first cell flows west, the trace of a seed in
  that cell ends with the point of the cell \<open>(0, -1)\<close>, which is no cell of the grid; its Z
  is \<open>3\<close>, read by \<^verbatim>\<open>fill[0, -1]\<close>, and that is the grid's value at the cell \<open>(0, 1)\<close> on
  the opposite edge.
\<close>

theorem surface_z_wraps_at_west_exit:
  "has_shape [[16, 0 :: int]] (height (demo_raster 1 2)) (width (demo_raster 1 2))
   \<and> has_shape [[7, 3 :: real]] (height (demo_raster 1 2)) (width (demo_raster 1 2))
   \<and> raster_indices (demo_raster 1 2) (5, 95) = Inr (0, 0)
   \<and> move_to_next_pixel [[16, 0]] 0 0 = Inr (0, - 1)
   \<and> trace_seed (demo_raster 1 2) [[16, 0]] (Some [[7, 3]]) (5, 95)
       = Some (Inr [\<lparr>X = 5, Y = 95, Z = 7\<rparr>, \<lparr>X = - 15, Y = 105, Z = 3\<rparr>])
   \<and> is_cell_point (demo_raster 1 2) (0, - 1) \<lparr>X = - 15, Y = 105, Z = 3\<rparr>
   \<and> \<not> in_grid (demo_raster 1 2) 0 (- 1)
   \<and> in_grid (demo_raster 1 2) 0 1
   \<and> [[7, 3 :: real]] ! 0 ! 1 = 3
   \<and> \<not> is_cell_point (demo_raster 1 2) (0, 1) \<lparr>X = - 15, Y = 105, Z = 3\<rparr>"
  by (simp add: eval_defs Let_def trace_loop.simps)

text \<open>
  Claim C9, amended.  In a trace that is produced without a surface raster every point
  has \<open>Z = 0\<close>.  With a surface raster of the raster's shape, the Z of every point is
  what \<^verbatim>\<open>fill[row, col]\<close> reads at the point's cell (the seed's cell for the first point,
  then the cells the flow directions lead through); every cell but the last is within
  the valid index range, and a point whose cell is within the range has the grid's
  value at that cell.  The last cell is within the range or has row \<open>-1\<close> or column
  \<open>-1\<close>, where the read is the entry numpy's index rule selects in the last row or
  column.
\<close>

theorem trace_z_is_surface_value_in_grid:
  assumes "trace_seed fdr_raster fdr fill pnt = Some (Inr vs)"
  shows "(fill = None \<longrightarrow> list_all (\<lambda>v. Z v = 0) vs)
       \<and> (\<forall>a. fill = Some a \<and> has_shape a (height fdr_raster) (width fdr_raster) \<longrightarrow>
            (\<exists>cell cs. raster_indices fdr_raster pnt = Inr cell
               \<and> cs \<noteq> []
               \<and> flow_path fdr cell cs
               \<and> list_all2 (is_cell_point fdr_raster) cs (tl vs)
               \<and> list_all2 (\<lambda>c v. getitem a (fst c) (snd c) = Inr (Z v)) (cell # cs) vs
               \<and> list_all2 (\<lambda>c v. in_grid fdr_raster (fst c) (snd c) \<longrightarrow>
                                     Z v = a ! nat (fst c) ! nat (snd c)) (cell # cs) vs
               \<and> list_all (\<lambda>c. in_grid fdr_raster (fst c) (snd c)) (butlast (cell # cs))
               \<and> (in_grid fdr_raster (fst (last cs)) (snd (last cs))
                    \<or> fst (last cs) = - 1 \<or> snd (last cs) = - 1)))"
proof -
  from assms obtain row col z where
    ri: "raster_indices fdr_raster pnt = Inr (row, col)"
    and z: "surface_z fill row col = Inr z"
    and loop: "trace_loop fdr_raster fdr fill
                 \<lparr>st_row = row, st_col = col,
                  st_array = [\<lparr>X = fst pnt, Y = snd pnt, Z = z\<rparr>]\<rparr> = Some (Inr vs)"
    by (auto simp: trace_seed_def split: sum.splits prod.splits)
  from trace_loop_path_bounds [OF loop refl] obtain cs ws where
    h: "cs \<noteq> []" "vs = \<lparr>X = fst pnt, Y = snd pnt, Z = z\<rparr> # ws"
      "list_all2 (is_cell_point fdr_raster) cs ws"
      "list_all2 (has_surface_z fill) cs ws"
      "flow_path fdr (row, col) cs"
      "list_all (\<lambda>c. 0 \<le> fst c \<and> fst c \<le> height fdr_raster
                       \<and> 0 \<le> snd c \<and> snd c \<le> width fdr_raster) (butlast cs)"
    by auto
  have none: "list_all (\<lambda>v. Z v = 0) vs" if "fill = None"
    using h(2,4) z that list_all2_None_z [of cs ws] by (simp add: surface_z_def)
  have some: "\<exists>cell cs. raster_indices fdr_raster pnt = Inr cell
               \<and> cs \<noteq> []
               \<and> flow_path fdr cell cs
               \<and> list_all2 (is_cell_point fdr_raster) cs (tl vs)
               \<and> list_all2 (\<lambda>c v. getitem a (fst c) (snd c) = Inr (Z v)) (cell # cs) vs
               \<and> list_all2 (\<lambda>c v. in_grid fdr_raster (fst c) (snd c) \<longrightarrow>
                                     Z v = a ! nat (fst c) ! nat (snd c)) (cell # cs) vs
               \<and> list_all (\<lambda>c. in_grid fdr_raster (fst c) (snd c)) (butlast (cell # cs))
               \<and> (in_grid fdr_raster (fst (last cs)) (snd (last cs))
                    \<or> fst (last cs) = - 1 \<or> snd (last cs) = - 1)"
    if fill: "fill = Some a" and sh: "has_shape a (height fdr_raster) (width fdr_raster)" for a
  proof -
    from fill have eq: "has_surface_z fill = (\<lambda>c v. getitem a (fst c) (snd c) = Inr (Z v))"
      by (simp add: has_surface_z_def surface_z_def fun_eq_iff)
    from z fill have z0: "getitem a row col = Inr z" by (simp add: surface_z_def)
    with h(2,4) eq have reads:
      "list_all2 (\<lambda>c v. getitem a (fst c) (snd c) = Inr (Z v)) ((row, col) # cs) vs"
      by simp
    have val: "Z v = a ! nat (fst c) ! nat (snd c)"
      if "getitem a (fst c) (snd c) = Inr (Z v)" "in_grid fdr_raster (fst c) (snd c)"
      for c and v :: point
      using that getitem_in_range [OF sh, of "fst c" "snd c"] by (simp add: in_grid_def)
    from reads have vals:
      "list_all2 (\<lambda>c v. in_grid fdr_raster (fst c) (snd c) \<longrightarrow>
                          Z v = a ! nat (fst c) ! nat (snd c)) ((row, col) # cs) vs"
      by (rule list_all2_mono) (simp add: val)
    have upper: "fst c < height fdr_raster \<and> snd c < width fdr_raster"
      if "c \<in> set ((row, col) # cs)" for c
    proof -
      from list_all2_left_memberD [OF reads that] obtain v :: point where
        "getitem a (fst c) (snd c) = Inr (Z v)"
        by blast
      from getitem_Inr_upper [OF sh this] show ?thesis .
    qed
    from raster_indices_nonneg [OF ri] have nn: "0 \<le> row" "0 \<le> col" by simp_all
    have inner: "list_all (\<lambda>c. in_grid fdr_raster (fst c) (snd c)) (butlast ((row, col) # cs))"
      unfolding list_all_iff
    proof
      fix c assume c: "c \<in> set (butlast ((row, col) # cs))"
      then have mem: "c \<in> set ((row, col) # cs)" by (rule in_set_butlastD)
      from c h(1) have "c = (row, col) \<or> c \<in> set (butlast cs)" by simp
      with nn h(6) have "0 \<le> fst c \<and> 0 \<le> snd c" by (auto simp: list_all_iff)
      with upper [OF mem] show "in_grid fdr_raster (fst c) (snd c)" by (simp add: in_grid_def)
    qed
    from h(1) have "last (butlast ((row, col) # cs)) \<in> set (butlast ((row, col) # cs))"
      by (intro last_in_set) simp
    with inner have prev: "in_grid fdr_raster (fst (last (butlast ((row, col) # cs))))
                             (snd (last (butlast ((row, col) # cs))))"
      by (simp add: list_all_iff)
    from h(1) have "last cs \<in> set ((row, col) # cs)" by simp
    from upper [OF this] flow_path_last_near [OF h(5) h(1)] prev
    have lastc: "in_grid fdr_raster (fst (last cs)) (snd (last cs))
                    \<or> fst (last cs) = - 1 \<or> snd (last cs) = - 1"
      by (auto simp: in_grid_def)
    from ri h reads vals inner lastc show ?thesis
      by (intro exI [of _ "(row, col)"] exI [of _ cs]) simp
  qed
  from none some show ?thesis by blast
qed

theorem trace_z_is_surface_value_in_grid_witness:
  "trace_seed (demo_raster 2 2) [[1, 4], [0, 0]] (Some [[30, 20], [25, 10]]) (3, 98)
     = Some (Inr [\<lparr>X = 3, Y = 98, Z = 30\<rparr>, \<lparr>X = 5, Y = 105, Z = 20\<rparr>,
                  \<lparr>X = 5, Y = 95, Z = 10\<rparr>, \<lparr>X = 5, Y = 95, Z = 10\<rparr>])
   \<and> has_shape [[30, 20], [25, 10 :: real]] (height (demo_raster 2 2)) (width (demo_raster 2 2))
   \<and> (\<exists>cs. flow_path [[1, 4], [0, 0]] (0, 0) cs
         \<and> list_all2 (\<lambda>c v. getitem [[30, 20], [25, 10]] (fst c) (snd c) = Inr (Z v))
              ((0, 0) # cs)
              [\<lparr>X = 3, Y = 98, Z = 30\<rparr>, \<lparr>X = 5, Y = 105, Z = 20\<rparr>,
               \<lparr>X = 5, Y = 95, Z = 10\<rparr>, \<lparr>X = 5, Y = 95, Z = 10\<rparr>]
         \<and> list_all (\<lambda>c. in_grid (demo_raster 2 2) (fst c) (snd c)) (butlast ((0, 0) # cs))
         \<and> in_grid (demo_raster 2 2) (fst (last cs)) (snd (last cs)))
   \<and> (\<exists>cs. list_all2 (\<lambda>c v. getitem [[7, 3]] (fst c) (snd c) = Inr (Z v))
              ((0, 0) # cs) [\<lparr>X = 5, Y = 95, Z = 7\<rparr>, \<lparr>X = - 15, Y = 105, Z = 3\<rparr>]
         \<and> list_all2 (is_cell_point (demo_raster 1 2)) cs [\<lparr>X = - 15, Y = 105, Z = 3\<rparr>])
   \<and> trace_seed (demo_raster 2 2) [[1, 4], [0, 0]] None (3, 98)
     = Some (Inr [\<lparr>X = 3, Y = 98, Z = 0\<rparr>, \<lparr>X = 5, Y = 105, Z = 0\<rparr>,
                  \<lparr>X = 5, Y = 95, Z = 0\<rparr>, \<lparr>X = 5, Y = 95, Z = 0\<rparr>])
   \<and> list_all (\<lambda>v. Z v = 0)
        [\<lparr>X = 3, Y = 98, Z = 0\<rparr>, \<lparr>X = 5, Y = 105, Z = 0\<rparr>,
         \<lparr>X = 5, Y = 95, Z = 0\<rparr>, \<lparr>X = 5, Y = 95, Z = 0\<rparr>]"
proof -
  have ri: "raster_indices (demo_raster 2 2) (3, 98) = Inr (0, 0)"
    "raster_indices (demo_raster 1 2) (5, 95) = Inr (0, 0)"
    by (simp_all add: eval_defs)
  have sh: "has_shape [[30, 20], [25, 10 :: real]] (height (demo_raster 2 2)) (width (demo_raster 2 2))"
    "has_shape [[7, 3 :: real]] (height (demo_raster 1 2)) (width (demo_raster 1 2))"
    by (simp_all add: eval_defs)
  from trace_z_is_surface_value_in_grid [OF demo_trace] sh(1) ri(1) obtain cs where
    a: "flow_path [[1, 4], [0, 0]] (0, 0) cs"
      "list_all2 (\<lambda>c v. getitem [[30, 20], [25, 10]] (fst c) (snd c) = Inr (Z v))
              ((0, 0) # cs)
              [\<lparr>X = 3, Y = 98, Z = 30\<rparr>, \<lparr>X = 5, Y = 105, Z = 20\<rparr>,
               \<lparr>X = 5, Y = 95, Z = 10\<rparr>, \<lparr>X = 5, Y = 95, Z = 10\<rparr>]"
      "list_all (\<lambda>c. in_grid (demo_raster 2 2) (fst c) (snd c)) (butlast ((0, 0) # cs))"
      "in_grid (demo_raster 2 2) (fst (last cs)) (snd (last cs))
         \<or> fst (last cs) = - 1 \<or> snd (last cs) = - 1"
      "list_all2 (is_cell_point (demo_raster 2 2)) cs
         [\<lparr>X = 5, Y = 105, Z = 20\<rparr>, \<lparr>X = 5, Y = 95, Z = 10\<rparr>, \<lparr>X = 5, Y = 95, Z = 10\<rparr>]"
    by auto
  from a(5) have "last cs = (1, 1)"
    by (auto simp: list_all2_Cons2 is_cell_point_def get_coord_x_def get_coord_y_def
        demo_raster_def)
  then have last_in: "in_grid (demo_raster 2 2) (fst (last cs)) (snd (last cs))"
    by (simp add: in_grid_def demo_raster_def)
  from trace_z_is_surface_value_in_grid [OF demo_trace_west] sh(2) ri(2) obtain ds where
    b: "list_all2 (\<lambda>c v. getitem [[7, 3]] (fst c) (snd c) = Inr (Z v))
              ((0, 0) # ds) [\<lparr>X = 5, Y = 95, Z = 7\<rparr>, \<lparr>X = - 15, Y = 105, Z = 3\<rparr>]"
      "list_all2 (is_cell_point (demo_raster 1 2)) ds [\<lparr>X = - 15, Y = 105, Z = 3\<rparr>]"
    by auto
  from trace_z_is_surface_value_in_grid [OF demo_trace_flat] have
    c: "list_all (\<lambda>v. Z v = 0)
        [\<lparr>X = 3, Y = 98, Z = 0\<rparr>, \<lparr>X = 5, Y = 105, Z = 0\<rparr>,
         \<lparr>X = 5, Y = 95, Z = 0\<rparr>, \<lparr>X = 5, Y = 95, Z = 0\<rparr>]"
    by simp
  from a(1,2,3) last_in b c demo_trace demo_trace_flat sh(1) show ?thesis by blast
qed

subsection \<open>C10: a trace has at least two points\<close>

text \<open>
  Claim C10.  A trace that is produced has at least two points, since the body of the loop
  runs before \<^verbatim>\<open>done\<close> is first tested.  A seed on a cell whose flow code is none of the
  eight directions yields exactly two: the seed's own coordinates, then the point of
  that cell, both with the Z read at the cell.
\<close>

theorem trace_has_two_vertices:
  "(trace_seed fdr_raster fdr fill pnt = Some (Inr vs) \<longrightarrow> 2 \<le> length vs)
   \<and> (raster_indices fdr_raster pnt = Inr (row, col) \<and> getitem fdr row col = Inr v
        \<and> v \<notin> {1, 2, 4, 8, 16, 32, 64, 128} \<and> surface_z fill row col = Inr z \<longrightarrow>
      trace_seed fdr_raster fdr fill pnt
        = Some (Inr [\<lparr>X = fst pnt, Y = snd pnt, Z = z\<rparr>,
                     \<lparr>X = get_coord_x col (meanCellWidth fdr_raster) (upperLeft fdr_raster),
                      Y = get_coord_y row (meanCellHeight fdr_raster) (upperLeft fdr_raster),
                      Z = z\<rparr>]))"
proof -
  have a: "2 \<le> length vs" if "trace_seed fdr_raster fdr fill pnt = Some (Inr vs)"
  proof -
    from trace_seed_Inr [OF that] obtain p cs ws where
      h: "vs = p # ws" "cs \<noteq> []" "list_all2 (is_cell_point fdr_raster) cs ws"
      by blast
    from h(3) have "length cs = length ws" by (rule list_all2_lengthD)
    with h(2) have "1 \<le> length ws" by (cases ws) auto
    with h(1) show ?thesis by simp
  qed
  have b: "trace_seed fdr_raster fdr fill pnt
        = Some (Inr [\<lparr>X = fst pnt, Y = snd pnt, Z = z\<rparr>,
                     \<lparr>X = get_coord_x col (meanCellWidth fdr_raster) (upperLeft fdr_raster),
                      Y = get_coord_y row (meanCellHeight fdr_raster) (upperLeft fdr_raster),
                      Z = z\<rparr>])"
    if "raster_indices fdr_raster pnt = Inr (row, col)" "getitem fdr row col = Inr v"
      "v \<notin> {1, 2, 4, 8, 16, 32, 64, 128}" "surface_z fill row col = Inr z"
    using that trace_loop_sink [OF that(2,3,4)] by (simp add: trace_seed_def)
  from a b show ?thesis by blast
qed

theorem trace_has_two_vertices_witness:
  "trace_seed (demo_raster 2 2) [[1, 4], [0, 0]] (Some [[30, 20], [25, 10]]) (3, 98)
     = Some (Inr [\<lparr>X = 3, Y = 98, Z = 30\<rparr>, \<lparr>X = 5, Y = 105, Z = 20\<rparr>,
                  \<lparr>X = 5, Y = 95, Z = 10\<rparr>, \<lparr>X = 5, Y = 95, Z = 10\<rparr>])
   \<and> (2::nat) \<le> 4
   \<and> raster_indices (demo_raster 2 2) (3, 88) = Inr (1, 0)
   \<and> getitem [[1, 4], [0, 0]] 1 0 = Inr (0::int)
   \<and> trace_seed (demo_raster 2 2) [[1, 4], [0, 0]] (Some [[30, 20], [25, 10]]) (3, 88)
       = Some (Inr [\<lparr>X = 3, Y = 88, Z = 25\<rparr>, \<lparr>X = - 5, Y = 95, Z = 25\<rparr>])"
proof -
  have ri: "raster_indices (demo_raster 2 2) (3, 88) = Inr (1, 0)"
    by (simp add: eval_defs)
  have g: "getitem [[1, 4], [0, 0]] 1 0 = Inr (0::int)"
    by (simp add: eval_defs)
  have z: "surface_z (Some [[30, 20], [25, 10]]) 1 0 = Inr 25"
    by (simp add: eval_defs)
  have xy: "get_coord_x 0 (meanCellWidth (demo_raster 2 2)) (upperLeft (demo_raster 2 2)) = - 5"
    "get_coord_y 1 (meanCellHeight (demo_raster 2 2)) (upperLeft (demo_raster 2 2)) = 95"
    by (simp_all add: eval_defs)
  from trace_has_two_vertices [of "demo_raster 2 2" "[[1, 4], [0, 0]]"
      "Some [[30, 20], [25, 10]]" "(3, 98)"
      "[\<lparr>X = 3, Y = 98, Z = 30\<rparr>, \<lparr>X = 5, Y = 105, Z = 20\<rparr>,
        \<lparr>X = 5, Y = 95, Z = 10\<rparr>, \<lparr>X = 5, Y = 95, Z = 10\<rparr>]"]
    trace_has_two_vertices [of "demo_raster 2 2" "[[1, 4], [0, 0]]"
      "Some [[30, 20], [25, 10]]" "(3, 88)" "[]" 1 0 0 25]
    demo_trace ri g z xy
  show ?thesis by simp
qed

end
